theory Spec2Isabelle
  imports Main
begin

section \<open>Data model of the network page\<close>

text \<open>
  The page works on plain records. A person has an identifier, a display name and an
  optional list of alternate names; a relationship names two person identifiers and
  carries a description. Identifiers are strings (the page takes its own identifier
  from the route as a string and compares with strict equality).
\<close>

record Person =
  person_id :: string
  person_name :: string
  person_alias :: "string list option"

record Relationship =
  rel_id :: string
  person1Id :: string
  person2Id :: string
  description :: string

text \<open>The node and edge objects handed to the drawing library, field by field.\<close>

record NetworkNode =
  node_id :: string
  node_label :: string
  node_title :: string
  node_color :: string
  node_group :: string

record NetworkEdge =
  edge_id :: string
  edge_from :: string
  edge_to :: string
  edge_label :: string
  edge_color :: string
  edge_arrows :: string

text \<open>An entry of the related-people list: the relationship and the looked-up person
  (absent when the lookup found nobody).\<close>

record RelatedItem =
  item_relationship :: Relationship
  item_person :: "Person option"

section \<open>The graph projection\<close>

text \<open>\<^verbatim>\<open>person.alias?.[0] || ""\<close>: the first alternate name, or the empty string when
  there is no list, the list is empty, or the first name is itself empty.\<close>

definition aliasTitle :: "Person \<Rightarrow> string" where
  "aliasTitle p =
     (case person_alias p of
        None \<Rightarrow> ''''
      | Some [] \<Rightarrow> ''''
      | Some (a # _) \<Rightarrow> a)"

text \<open>\<^verbatim>\<open>rel.person1Id === person.id ? rel.person2Id : rel.person1Id\<close>\<close>

definition targetPersonId :: "Person \<Rightarrow> Relationship \<Rightarrow> string" where
  "targetPersonId p rel =
     (if person1Id rel = person_id p then person2Id rel else person1Id rel)"

text \<open>\<^verbatim>\<open>allPeople.find(p => p.id === targetPersonId)\<close>: the first roster entry with
  that identifier.\<close>

definition targetPerson :: "Person list \<Rightarrow> string \<Rightarrow> Person option" where
  "targetPerson roster t = find (\<lambda>q. person_id q = t) roster"

definition centerNode :: "Person \<Rightarrow> NetworkNode" where
  "centerNode p =
     \<lparr> node_id = person_id p, node_label = person_name p, node_title = aliasTitle p,
       node_color = ''#ff6b6b'', node_group = ''center'' \<rparr>"

definition relatedNode :: "Person \<Rightarrow> NetworkNode" where
  "relatedNode q =
     \<lparr> node_id = person_id q, node_label = person_name q, node_title = aliasTitle q,
       node_color = ''#4ecdc4'', node_group = ''related'' \<rparr>"

text \<open>The \<^verbatim>\<open>forEach\<close> loop over the relationships: each round looks the counterpart
  up and, when it is found, pushes one node onto the array built so far.\<close>

fun addRelatedNodes ::
  "Person \<Rightarrow> Person list \<Rightarrow> Relationship list \<Rightarrow> NetworkNode list \<Rightarrow> NetworkNode list" where
  "addRelatedNodes p roster [] acc = acc"
| "addRelatedNodes p roster (rel # rels) acc =
     (case targetPerson roster (targetPersonId p rel) of
        Some q \<Rightarrow> addRelatedNodes p roster rels (acc @ [relatedNode q])
      | None \<Rightarrow> addRelatedNodes p roster rels acc)"

definition nodes :: "Person \<Rightarrow> Relationship list \<Rightarrow> Person list \<Rightarrow> NetworkNode list" where
  "nodes p rels roster = addRelatedNodes p roster rels [centerNode p]"

text \<open>The edge array is a \<^verbatim>\<open>map\<close> over the relationships; its callback only
  resolves the counterpart identifier and never consults the roster.\<close>

definition edgeOf :: "Person \<Rightarrow> Relationship \<Rightarrow> NetworkEdge" where
  "edgeOf p rel =
     \<lparr> edge_id = rel_id rel, edge_from = person_id p, edge_to = targetPersonId p rel,
       edge_label = description rel, edge_color = ''#667eea'', edge_arrows = ''to'' \<rparr>"

definition edges :: "Person \<Rightarrow> Relationship list \<Rightarrow> NetworkEdge list" where
  "edges p rels = map (edgeOf p) rels"

text \<open>The related-people list: a \<^verbatim>\<open>map\<close> to pairs followed by a \<^verbatim>\<open>filter\<close> that
  keeps the pairs whose person was found.\<close>

definition relatedItem :: "Person \<Rightarrow> Person list \<Rightarrow> Relationship \<Rightarrow> RelatedItem" where
  "relatedItem p roster rel =
     \<lparr> item_relationship = rel,
       item_person = targetPerson roster (targetPersonId p rel) \<rparr>"

definition getRelatedPeople ::
  "Person \<Rightarrow> Relationship list \<Rightarrow> Person list \<Rightarrow> RelatedItem list" where
  "getRelatedPeople p rels roster =
     filter (\<lambda>item. item_person item \<noteq> None) (map (relatedItem p roster) rels)"

section \<open>Page state, loader and rendering\<close>

text \<open>
  The two messages the loader can store are non-empty string constants; they are kept
  apart by a datatype. The first is the "person not found" message (also the fallback
  text of the error view), the second the generic "loading failed" message.
\<close>

datatype message = NotFoundMessage | LoadFailedMessage

text \<open>How one of the three joined requests ends.\<close>

datatype 'a settled = Resolved 'a | Rejected

record Network =
  net_nodes :: "NetworkNode list"
  net_edges :: "NetworkEdge list"

record PageState =
  person :: "Person option"
  relationships :: "Relationship list"
  allPeople :: "Person list"
  loading :: bool
  error :: "message option"
  networkInstance :: "Network option"

text \<open>
  One run of \<^verbatim>\<open>loadData\<close> to completion, given the route identifier and the way the
  three requests settle. Without an identifier (undefined or empty) nothing happens.
  Otherwise the loading flag is raised and the error cleared; a rejection of any request
  reaches the \<^verbatim>\<open>catch\<close> branch; a null subject stores the not-found message and
  returns before the three setters; the \<^verbatim>\<open>finally\<close> branch lowers the loading flag
  on every path.
\<close>

definition loadData ::
  "string option \<Rightarrow> Person option settled \<Rightarrow> Relationship list settled \<Rightarrow>
   Person list settled \<Rightarrow> PageState \<Rightarrow> PageState" where
  "loadData ident personData relationshipsData allPeopleData st =
     (if ident = None \<or> ident = Some '''' then st
      else
        let st1 = st\<lparr>loading := True, error := None\<rparr>;
            st2 = (case (personData, relationshipsData, allPeopleData) of
                     (Resolved None, Resolved rd, Resolved ad) \<Rightarrow>
                        st1\<lparr>error := Some NotFoundMessage\<rparr>
                   | (Resolved (Some q), Resolved rd, Resolved ad) \<Rightarrow>
                        st1\<lparr>person := Some q, relationships := rd, allPeople := ad\<rparr>
                   | _ \<Rightarrow> st1\<lparr>error := Some LoadFailedMessage\<rparr>)
        in st2\<lparr>loading := False\<rparr>)"

text \<open>What the component returns: the spinner, the error panel with its message, or the
  network view with the subject and the related-people list.\<close>

datatype View = LoadingView | ErrorView message | NetworkView Person "RelatedItem list"

definition render :: "PageState \<Rightarrow> View" where
  "render st =
     (if loading st then LoadingView
      else case person st of
        None \<Rightarrow> ErrorView (case error st of Some m \<Rightarrow> m | None \<Rightarrow> NotFoundMessage)
      | Some p \<Rightarrow>
          (case error st of
             Some m \<Rightarrow> ErrorView m
           | None \<Rightarrow> NetworkView p (getRelatedPeople p (relationships st) (allPeople st))))"

text \<open>The container the graph is drawn into is part of the network view only, so the
  reference to it is set exactly when that view was returned.\<close>

definition networkRef :: "PageState \<Rightarrow> bool" where
  "networkRef st = (case render st of NetworkView _ _ \<Rightarrow> True | _ \<Rightarrow> False)"

text \<open>
  The node and edge arrays are wrapped by \<^verbatim>\<open>new DataSet(...)\<close> before the network is
  made. The data set belongs to the drawing library, not to this page; what matters
  here is that it is keyed by identifier: its constructor adds the items one by one and
  throws as soon as an item's identifier is already stored. The exception is a value of
  the model, carrying the repeated identifier.
\<close>

datatype effect_error = DuplicateId string

fun dataSetAdd :: "('a \<Rightarrow> string) \<Rightarrow> 'a list \<Rightarrow> 'a list \<Rightarrow> effect_error + 'a list" where
  "dataSetAdd ident stored [] = Inr stored"
| "dataSetAdd ident stored (item # items) =
     (if ident item \<in> set (map ident stored) then Inl (DuplicateId (ident item))
      else dataSetAdd ident (stored @ [item]) items)"

definition newDataSet :: "('a \<Rightarrow> string) \<Rightarrow> 'a list \<Rightarrow> effect_error + 'a list" where
  "newDataSet ident items = dataSetAdd ident [] items"

text \<open>
  The effect that builds the graph. It returns at once without a subject or a
  container. Otherwise it builds the node array and the edge array, wraps the nodes and
  then the edges in data sets, and stores a new network made of the two. Nothing in the
  effect catches the data set's exception: when either constructor throws, the effect
  ends there, no network is stored (the state is as before) and the page is lost; that
  outcome is \<open>Inl\<close>.
\<close>

definition createNetwork :: "PageState \<Rightarrow> effect_error + PageState" where
  "createNetwork st =
     (case person st of
        None \<Rightarrow> Inr st
      | Some p \<Rightarrow>
          if \<not> networkRef st then Inr st
          else
            (case newDataSet node_id (nodes p (relationships st) (allPeople st)) of
               Inl e \<Rightarrow> Inl e
             | Inr nodesDataSet \<Rightarrow>
                 (case newDataSet edge_id (edges p (relationships st)) of
                    Inl e \<Rightarrow> Inl e
                  | Inr edgesDataSet \<Rightarrow>
                      Inr (st\<lparr>networkInstance :=
                             Some \<lparr> net_nodes = nodesDataSet,
                                    net_edges = edgesDataSet \<rparr>\<rparr>))))"

text \<open>The state a run of the effect leaves behind: the new state when it completes, the
  old one when it throws.\<close>

definition afterEffect :: "PageState \<Rightarrow> PageState" where
  "afterEffect st = (case createNetwork st of Inl e \<Rightarrow> st | Inr st' \<Rightarrow> st')"

text \<open>The effect's cleanup: destroy the network, if any, and clear the reference.\<close>

definition destroyNetwork :: "PageState \<Rightarrow> PageState" where
  "destroyNetwork st = st\<lparr>networkInstance := None\<rparr>"

section \<open>Clicks\<close>

text \<open>Navigation requests are collected as the list of routes asked for.\<close>

definition handlePersonClick :: "string \<Rightarrow> string list" where
  "handlePersonClick t = [''/person/'' @ t]"

text \<open>The graph's click handler receives the identifiers of the nodes under the
  pointer and looks at the first one only.\<close>

definition onClick :: "Person \<Rightarrow> string list \<Rightarrow> string list" where
  "onClick p clicked =
     (case clicked of
        [] \<Rightarrow> []
      | nodeId # _ \<Rightarrow> if nodeId \<noteq> person_id p then [''/person/'' @ nodeId] else [])"

text \<open>A click on a list entry reads the identifier of the entry's person; reading it
  from an absent person is a type error, modelled as \<open>None\<close>.\<close>

definition itemClick :: "RelatedItem \<Rightarrow> string list option" where
  "itemClick item =
     (case item_person item of
        None \<Rightarrow> None
      | Some q \<Rightarrow> Some (handlePersonClick (person_id q)))"

section \<open>Example data\<close>

definition alice :: Person where
  "alice = \<lparr> person_id = ''P1'', person_name = ''Alice'', person_alias = None \<rparr>"

definition bob :: Person where
  "bob = \<lparr> person_id = ''P2'', person_name = ''Bob'', person_alias = Some [''Robert''] \<rparr>"

definition carol :: Person where
  "carol = \<lparr> person_id = ''P3'', person_name = ''Carol'', person_alias = Some [] \<rparr>"

definition friendship :: Relationship where
  "friendship = \<lparr> rel_id = ''R1'', person1Id = ''P1'', person2Id = ''P2'',
                  description = ''friend'' \<rparr>"

definition tutoring :: Relationship where
  "tutoring = \<lparr> rel_id = ''R2'', person1Id = ''P2'', person2Id = ''P1'',
                description = ''teacher'' \<rparr>"

definition rivalry :: Relationship where
  "rivalry = \<lparr> rel_id = ''R3'', person1Id = ''P2'', person2Id = ''P3'',
               description = ''rival'' \<rparr>"

definition kinship :: Relationship where
  "kinship = \<lparr> rel_id = ''R4'', person1Id = ''P3'', person2Id = ''P1'',
               description = ''sister'' \<rparr>"

definition initialState :: PageState where
  "initialState = \<lparr> person = None, relationships = [], allPeople = [], loading = True,
                    error = None, networkInstance = None \<rparr>"

definition readyState :: PageState where
  "readyState = \<lparr> person = Some alice, relationships = [friendship, kinship],
                  allPeople = [alice, bob, carol], loading = False, error = None,
                  networkInstance = None \<rparr>"

definition clashState :: PageState where
  "clashState = \<lparr> person = Some alice, relationships = [friendship, tutoring],
                  allPeople = [alice, bob], loading = False, error = None,
                  networkInstance = None \<rparr>"

section \<open>Roster lookup\<close>

lemma targetPerson_Some:
  "targetPerson roster t = Some q \<Longrightarrow> person_id q = t \<and> q \<in> set roster"
  unfolding targetPerson_def by (induction roster) (auto split: if_splits)

lemma targetPerson_None:
  "(targetPerson roster t = None) = (t \<notin> person_id ` set roster)"
  unfolding targetPerson_def by (induction roster) auto

lemma targetPerson_present:
  assumes "t \<in> person_id ` set roster"
  shows "\<exists>q \<in> set roster. targetPerson roster t = Some q \<and> person_id q = t"
proof -
  from assms have "targetPerson roster t \<noteq> None"
    by (simp add: targetPerson_None)
  then obtain q where "targetPerson roster t = Some q"
    by blast
  then show ?thesis
    using targetPerson_Some by blast
qed

lemma targetPerson_found: "(targetPerson roster t \<noteq> None) = (t \<in> person_id ` set roster)"
  by (simp add: targetPerson_None)

lemma targetPerson_found_ex:
  "(\<exists>q. targetPerson roster t = Some q) = (t \<in> person_id ` set roster)"
  using targetPerson_found [of roster t] by (simp only: not_None_eq)

section \<open>The keyed data set\<close>

lemma dataSetAdd_distinct:
  "distinct (map ident (stored @ items)) \<Longrightarrow> dataSetAdd ident stored items = Inr (stored @ items)"
  by (induction items arbitrary: stored) auto

lemma dataSetAdd_repeated:
  "\<not> distinct (map ident (stored @ items)) \<Longrightarrow> distinct (map ident stored) \<Longrightarrow>
     \<exists>i. dataSetAdd ident stored items = Inl (DuplicateId i)"
proof (induction items arbitrary: stored)
  case Nil
  then show ?case by simp
next
  case (Cons item items)
  show ?case
  proof (cases "ident item \<in> set (map ident stored)")
    case True
    then show ?thesis by simp
  next
    case False
    with Cons.prems have "\<not> distinct (map ident ((stored @ [item]) @ items))"
      and "distinct (map ident (stored @ [item]))"
      by auto
    then have "\<exists>i. dataSetAdd ident (stored @ [item]) items = Inl (DuplicateId i)"
      by (rule Cons.IH)
    with False show ?thesis by simp
  qed
qed

lemma newDataSet_Inr:
  "(newDataSet ident items = Inr xs) = (distinct (map ident items) \<and> xs = items)"
proof (cases "distinct (map ident items)")
  case True
  then have "newDataSet ident items = Inr items"
    using dataSetAdd_distinct [of ident "[]" items] by (simp add: newDataSet_def)
  with True show ?thesis by auto
next
  case False
  then obtain i where "newDataSet ident items = Inl (DuplicateId i)"
    using dataSetAdd_repeated [of ident "[]" items] by (auto simp: newDataSet_def)
  with False show ?thesis by simp
qed

section \<open>The node loop in closed form\<close>

text \<open>The loop only ever appends to the array it was given: the result is that array
  followed by one node per relationship whose counterpart was found, in input order.\<close>

lemma addRelatedNodes_append:
  "addRelatedNodes p roster rels acc =
     acc @ map relatedNode
             (List.map_filter (\<lambda>rel. targetPerson roster (targetPersonId p rel)) rels)"
proof (induction rels arbitrary: acc)
  case Nil
  show ?case by simp
next
  case (Cons rel rels)
  show ?case
  proof (cases "targetPerson roster (targetPersonId p rel)")
    case None
    then show ?thesis by (simp add: Cons.IH)
  next
    case (Some q)
    then show ?thesis by (simp add: Cons.IH)
  qed
qed

lemma nodes_closed_form:
  "nodes p rels roster =
     centerNode p #
     map relatedNode
       (List.map_filter (\<lambda>rel. targetPerson roster (targetPersonId p rel)) rels)"
  by (simp add: nodes_def addRelatedNodes_append)

lemma found_ids:
  "map person_id (List.map_filter (\<lambda>rel. targetPerson roster (targetPersonId p rel)) rels) =
     filter (\<lambda>t. targetPerson roster t \<noteq> None) (map (targetPersonId p) rels)"
proof (induction rels)
  case Nil
  show ?case by simp
next
  case (Cons rel rels)
  show ?case
  proof (cases "targetPerson roster (targetPersonId p rel)")
    case None
    then show ?thesis by (simp add: Cons.IH)
  next
    case (Some q)
    then have "person_id q = targetPersonId p rel"
      by (simp add: targetPerson_Some)
    with Some show ?thesis by (simp add: Cons.IH)
  qed
qed

lemma node_ids:
  "map node_id (nodes p rels roster) =
     person_id p #
     filter (\<lambda>t. targetPerson roster t \<noteq> None) (map (targetPersonId p) rels)"
proof -
  have "node_id \<circ> relatedNode = person_id"
    by (simp add: fun_eq_iff relatedNode_def)
  then have "map node_id (map relatedNode qs) = map person_id qs" for qs
    by simp
  then show ?thesis
    by (simp only: nodes_closed_form found_ids list.map) (simp add: centerNode_def)
qed

lemma related_group: "node_group (relatedNode q) = ''related''"
  by (simp add: relatedNode_def)

lemma center_group: "node_group (centerNode p) = ''center''"
  by (simp add: centerNode_def)

section \<open>Edges\<close>

text \<open>
  Claim C10. For every input the edge list is exactly as long as the relationship list:
  one edge per relationship, whether or not the counterpart is in the roster. (The edge
  list does not depend on the roster at all.)
\<close>

theorem edges_length: "length (edges p rels) = length rels"
  by (simp add: edges_def)


lemma filter_distinct_key:
  "distinct (map f xs) \<Longrightarrow> i < length xs \<Longrightarrow> filter (\<lambda>x. f x = f (xs ! i)) xs = [xs ! i]"
proof (induction xs arbitrary: i)
  case Nil
  then show ?case by simp
next
  case (Cons x xs)
  show ?case
  proof (cases i)
    case 0
    have "filter (\<lambda>y. f y = f x) xs = []"
      using Cons.prems(1) by (auto simp: filter_empty_conv image_iff)
    with 0 show ?thesis by simp
  next
    case (Suc j)
    with Cons.prems have j: "j < length xs" and d: "distinct (map f xs)"
      and x: "f x \<notin> f ` set xs"
      by simp_all
    from j have "f (xs ! j) \<in> f ` set xs"
      by simp
    with x have "f x \<noteq> f (xs ! j)"
      by metis
    with Suc Cons.IH [OF d j] show ?thesis
      by simp
  qed
qed

lemma edge_ids: "map edge_id (edges p rels) = map rel_id rels"
  by (simp add: edges_def edgeOf_def)

text \<open>
  Claim C4. Take the relationship at any position of the input list whose counterpart
  (its second endpoint when the first is the subject, its first endpoint otherwise) is
  the identifier of some roster entry. The edge list has one position per relationship,
  and the edge at that same position carries the relationship's identifier, starts at
  the subject's identifier, ends at that counterpart identifier, which is the identifier
  of a person of the roster, and is labelled with the relationship's description. When
  the relationships' identifiers are pairwise distinct it is the only edge with that
  identifier.
\<close>

theorem edge_for_present_counterpart:
  assumes "i < length rels"
    and "(if person1Id (rels ! i) = person_id p then person2Id (rels ! i)
          else person1Id (rels ! i)) \<in> person_id ` set roster"
  shows "length (edges p rels) = length rels
       \<and> edges p rels ! i =
           \<lparr> edge_id = rel_id (rels ! i), edge_from = person_id p,
             edge_to = (if person1Id (rels ! i) = person_id p then person2Id (rels ! i)
                        else person1Id (rels ! i)),
             edge_label = description (rels ! i), edge_color = ''#667eea'',
             edge_arrows = ''to'' \<rparr>
       \<and> (\<exists>q \<in> set roster. edge_to (edges p rels ! i) = person_id q)
       \<and> (distinct (map rel_id rels) \<longrightarrow>
            filter (\<lambda>e. edge_id e = rel_id (rels ! i)) (edges p rels) = [edges p rels ! i])"
proof -
  have len: "length (edges p rels) = length rels"
    by (simp add: edges_def)
  have edge: "edges p rels ! i =
           \<lparr> edge_id = rel_id (rels ! i), edge_from = person_id p,
             edge_to = (if person1Id (rels ! i) = person_id p then person2Id (rels ! i)
                        else person1Id (rels ! i)),
             edge_label = description (rels ! i), edge_color = ''#667eea'',
             edge_arrows = ''to'' \<rparr>"
    using assms(1) by (simp add: edges_def edgeOf_def targetPersonId_def)
  have to: "\<exists>q \<in> set roster. edge_to (edges p rels ! i) = person_id q"
    using assms(2) by (simp only: edge NetworkEdge.simps) blast
  have only: "filter (\<lambda>e. edge_id e = rel_id (rels ! i)) (edges p rels) = [edges p rels ! i]"
    if "distinct (map rel_id rels)"
  proof -
    have "distinct (map edge_id (edges p rels))"
      using that by (simp only: edge_ids)
    moreover have "i < length (edges p rels)"
      using assms(1) by (simp only: len)
    ultimately have
      "filter (\<lambda>e. edge_id e = edge_id (edges p rels ! i)) (edges p rels) = [edges p rels ! i]"
      by (rule filter_distinct_key)
    moreover have "edge_id (edges p rels ! i) = rel_id (rels ! i)"
      by (simp add: edge)
    ultimately show ?thesis by simp
  qed
  from len edge to only show ?thesis by blast
qed

theorem edge_for_present_counterpart_witness:
  "(0::nat) < length [friendship, kinship]
   \<and> (1::nat) < length [friendship, kinship]
   \<and> person2Id friendship \<in> person_id ` set [alice, bob, carol]
   \<and> person1Id kinship \<in> person_id ` set [alice, bob, carol]
   \<and> distinct (map rel_id [friendship, kinship])
   \<and> edges alice [friendship, kinship] ! 0 =
       \<lparr> edge_id = ''R1'', edge_from = ''P1'', edge_to = ''P2'', edge_label = ''friend'',
         edge_color = ''#667eea'', edge_arrows = ''to'' \<rparr>
   \<and> edges alice [friendship, kinship] ! 1 =
       \<lparr> edge_id = ''R4'', edge_from = ''P1'', edge_to = ''P3'', edge_label = ''sister'',
         edge_color = ''#667eea'', edge_arrows = ''to'' \<rparr>
   \<and> filter (\<lambda>e. edge_id e = ''R1'') (edges alice [friendship, kinship]) =
       [edges alice [friendship, kinship] ! 0]
   \<and> filter (\<lambda>e. edge_id e = ''R4'') (edges alice [friendship, kinship]) =
       [edges alice [friendship, kinship] ! 1]"
proof -
  have l0: "(0::nat) < length [friendship, kinship]" and l1: "(1::nat) < length [friendship, kinship]"
    by simp_all
  have vals: "person1Id friendship = ''P1''" "person2Id friendship = ''P2''"
    "person1Id kinship = ''P3''" "person2Id kinship = ''P1''" "person_id alice = ''P1''"
    "rel_id friendship = ''R1''" "rel_id kinship = ''R4''"
    "description friendship = ''friend''" "description kinship = ''sister''"
    by (simp_all add: friendship_def kinship_def alice_def)
  have ids: "person_id ` set [alice, bob, carol] = {''P1'', ''P2'', ''P3''}"
    by (simp add: alice_def bob_def carol_def)
  have d: "distinct (map rel_id [friendship, kinship])"
    by (simp add: vals)
  have c0: "(if person1Id ([friendship, kinship] ! 0) = person_id alice
             then person2Id ([friendship, kinship] ! 0)
             else person1Id ([friendship, kinship] ! 0)) \<in> person_id ` set [alice, bob, carol]"
    unfolding ids by (simp add: vals)
  have c1: "(if person1Id ([friendship, kinship] ! 1) = person_id alice
             then person2Id ([friendship, kinship] ! 1)
             else person1Id ([friendship, kinship] ! 1)) \<in> person_id ` set [alice, bob, carol]"
    unfolding ids by (simp add: vals)
  have p2: "person2Id friendship \<in> person_id ` set [alice, bob, carol]"
    and p1: "person1Id kinship \<in> person_id ` set [alice, bob, carol]"
    unfolding ids by (simp_all add: vals)
  note r0 = edge_for_present_counterpart [OF l0 c0]
  note r1 = edge_for_present_counterpart [OF l1 c1]
  from r0 [THEN conjunct2, THEN conjunct1]
    r0 [THEN conjunct2, THEN conjunct2, THEN conjunct2, THEN mp, OF d]
  have e0: "edges alice [friendship, kinship] ! 0 =
       \<lparr> edge_id = ''R1'', edge_from = ''P1'', edge_to = ''P2'', edge_label = ''friend'',
         edge_color = ''#667eea'', edge_arrows = ''to'' \<rparr>"
    and f0: "filter (\<lambda>e. edge_id e = ''R1'') (edges alice [friendship, kinship]) =
       [edges alice [friendship, kinship] ! 0]"
    by (simp_all add: vals)
  from r1 [THEN conjunct2, THEN conjunct1]
    r1 [THEN conjunct2, THEN conjunct2, THEN conjunct2, THEN mp, OF d]
  have e1: "edges alice [friendship, kinship] ! 1 =
       \<lparr> edge_id = ''R4'', edge_from = ''P1'', edge_to = ''P3'', edge_label = ''sister'',
         edge_color = ''#667eea'', edge_arrows = ''to'' \<rparr>"
    and f1: "filter (\<lambda>e. edge_id e = ''R4'') (edges alice [friendship, kinship]) =
       [edges alice [friendship, kinship] ! 1]"
    by (simp_all add: vals)
  from l0 l1 p2 p1 d e0 e1 f0 f1 show ?thesis
    by (simp only: simp_thms)
qed

text \<open>
  Claim C1, evaluated on the specification's own scenario: the subject P1 with the one
  relationship R1 between P1 and P2, and a roster that holds P1 only. The counterpart P2
  is absent from the roster. The node list is the subject's node alone and the
  related-people list is empty, as the claim says, but the edge list still holds the edge
  R1 from P1 to P2: the edge callback never looks at the roster, unlike the node loop
  and the list.
\<close>

theorem absent_counterpart_keeps_edge:
  "targetPerson [alice] (targetPersonId alice friendship) = None
   \<and> nodes alice [friendship] [alice] = [centerNode alice]
   \<and> getRelatedPeople alice [friendship] [alice] = []
   \<and> edges alice [friendship] =
       [\<lparr> edge_id = ''R1'', edge_from = ''P1'', edge_to = ''P2'', edge_label = ''friend'',
          edge_color = ''#667eea'', edge_arrows = ''to'' \<rparr>]"
  by (simp add: targetPerson_def targetPersonId_def nodes_def getRelatedPeople_def
      relatedItem_def edges_def edgeOf_def alice_def friendship_def)


section \<open>Nodes\<close>

text \<open>
  Claim C2, evaluated where the same counterpart is reached twice: the subject P1 with
  the relationships R1 (P1, P2) and R2 (P2, P1) and the roster P1, P2. The loop pushes
  a node for P2 in each of the two rounds, so the node identifiers are P1, P2, P2 and
  the person P2 is two nodes. The array is then handed to the data set keyed by
  identifier, whose constructor throws on the second P2: the effect ends with that
  exception and stores no network.
\<close>

theorem duplicate_counterpart_two_nodes:
  "map node_id (nodes alice [friendship, tutoring] [alice, bob]) = [''P1'', ''P2'', ''P2'']
   \<and> \<not> distinct (map node_id (nodes alice [friendship, tutoring] [alice, bob]))
   \<and> networkRef clashState
   \<and> createNetwork clashState = Inl (DuplicateId ''P2'')"
proof -
  have ids: "map node_id (nodes alice [friendship, tutoring] [alice, bob]) =
             [''P1'', ''P2'', ''P2'']"
    by (simp add: nodes_def targetPerson_def targetPersonId_def relatedNode_def
        centerNode_def alice_def bob_def friendship_def tutoring_def)
  have ref: "networkRef clashState"
    by (simp add: networkRef_def render_def clashState_def)
  have "newDataSet node_id (nodes alice [friendship, tutoring] [alice, bob]) =
          Inl (DuplicateId ''P2'')"
    by (simp add: newDataSet_def nodes_def targetPerson_def targetPersonId_def
        relatedNode_def centerNode_def alice_def bob_def friendship_def tutoring_def)
  then have "createNetwork clashState = Inl (DuplicateId ''P2'')"
    using ref by (simp add: createNetwork_def) (simp add: clashState_def)
  with ids ref show ?thesis by simp
qed

text \<open>
  Claim C3. For every subject and every relationship list (whether or not the subject is
  in the roster), the nodes classified "center" are exactly one node, the one the list is
  seeded with; its identifier is the subject's; and it is also the only node that is not
  classified "related".
\<close>

theorem nodes_one_center:
  "filter (\<lambda>n. node_group n = ''center'') (nodes p rels roster) = [centerNode p]
   \<and> node_id (centerNode p) = person_id p
   \<and> filter (\<lambda>n. node_group n \<noteq> ''related'') (nodes p rels roster) = [centerNode p]"
proof -
  have rel: "filter (\<lambda>n. node_group n = ''center'') (map relatedNode qs) = []
           \<and> filter (\<lambda>n. node_group n \<noteq> ''related'') (map relatedNode qs) = []" for qs
    by (induction qs) (simp_all add: related_group)
  show ?thesis
    by (simp only: nodes_closed_form filter.simps rel center_group)
       (simp add: centerNode_def)
qed

section \<open>Orderings\<close>

lemma related_relationships:
  "map item_relationship (getRelatedPeople p rels roster) =
     filter (\<lambda>rel. targetPersonId p rel \<in> person_id ` set roster) rels"
  unfolding getRelatedPeople_def
  by (induction rels) (simp_all add: relatedItem_def targetPerson_found_ex)

lemma related_people:
  "map item_person (getRelatedPeople p rels roster) =
     map (\<lambda>rel. targetPerson roster (targetPersonId p rel))
       (filter (\<lambda>rel. targetPersonId p rel \<in> person_id ` set roster) rels)"
  unfolding getRelatedPeople_def
  by (induction rels) (simp_all add: relatedItem_def targetPerson_found_ex)

lemma node_ids_roster:
  "map node_id (nodes p rels roster) =
     person_id p # filter (\<lambda>t. t \<in> person_id ` set roster) (map (targetPersonId p) rels)"
  by (simp only: node_ids targetPerson_found)

text \<open>
  Claim C7. Write the counterpart of a relationship for its second endpoint when the
  first is the subject and its first endpoint otherwise. The node list is the subject's
  node followed by one node per relationship whose counterpart is the identifier of a
  roster entry, in the order of the relationship list, each made from the first roster
  entry with that identifier; so the node identifiers are the subject's followed by
  those counterparts in input order. The edge list has the relationships' identifiers
  and counterparts in input order. The related-people list has, in input order, exactly
  the relationships whose counterpart is the identifier of a roster entry, each paired
  with the first roster entry with that identifier.
\<close>

theorem projection_orderings:
  "targetPersonId p rel =
     (if person1Id rel = person_id p then person2Id rel else person1Id rel)
   \<and> nodes p rels roster =
       centerNode p #
       map relatedNode
         (List.map_filter (\<lambda>rel. find (\<lambda>q. person_id q = targetPersonId p rel) roster) rels)
   \<and> map node_id (nodes p rels roster) =
       person_id p #
       filter (\<lambda>t. t \<in> person_id ` set roster) (map (targetPersonId p) rels)
   \<and> map edge_id (edges p rels) = map rel_id rels
   \<and> map edge_to (edges p rels) = map (targetPersonId p) rels
   \<and> map item_relationship (getRelatedPeople p rels roster) =
       filter (\<lambda>rel. targetPersonId p rel \<in> person_id ` set roster) rels
   \<and> map item_person (getRelatedPeople p rels roster) =
       map (\<lambda>rel. find (\<lambda>q. person_id q = targetPersonId p rel) roster)
         (filter (\<lambda>rel. targetPersonId p rel \<in> person_id ` set roster) rels)"
proof -
  have t: "targetPersonId p rel =
     (if person1Id rel = person_id p then person2Id rel else person1Id rel)"
    by (simp add: targetPersonId_def)
  have n: "nodes p rels roster =
       centerNode p #
       map relatedNode
         (List.map_filter (\<lambda>rel. find (\<lambda>q. person_id q = targetPersonId p rel) roster) rels)"
    using nodes_closed_form [of p rels roster] by (simp only: targetPerson_def)
  have e: "map edge_to (edges p rels) = map (targetPersonId p) rels"
    by (simp add: edges_def edgeOf_def)
  have s: "map item_person (getRelatedPeople p rels roster) =
       map (\<lambda>rel. find (\<lambda>q. person_id q = targetPersonId p rel) roster)
         (filter (\<lambda>rel. targetPersonId p rel \<in> person_id ` set roster) rels)"
    using related_people [of p rels roster] by (simp only: targetPerson_def)
  from t n node_ids_roster [of p rels roster] edge_ids [of p rels] e
    related_relationships [of p rels roster] s
  show ?thesis by (simp only: simp_thms)
qed

theorem projection_orderings_witness:
  "map node_id (nodes alice [friendship, kinship] [alice, bob]) = [''P1'', ''P2'']
   \<and> map edge_id (edges alice [friendship, kinship]) = [''R1'', ''R4'']
   \<and> map edge_to (edges alice [friendship, kinship]) = [''P2'', ''P3'']
   \<and> map item_relationship (getRelatedPeople alice [friendship, kinship] [alice, bob]) =
       [friendship]
   \<and> map item_person (getRelatedPeople alice [friendship, kinship] [alice, bob]) =
       [Some bob]"
proof -
  note run = projection_orderings [of alice _ "[friendship, kinship]" "[alice, bob]"]
  have t: "targetPersonId alice friendship = ''P2''" "targetPersonId alice kinship = ''P3''"
    using projection_orderings [of alice friendship] projection_orderings [of alice kinship]
    by (simp_all add: alice_def friendship_def kinship_def)
  have vals: "person_id alice = ''P1''" "person_id bob = ''P2''"
    "rel_id friendship = ''R1''" "rel_id kinship = ''R4''"
    by (simp_all add: alice_def bob_def friendship_def kinship_def)
  from run have "map node_id (nodes alice [friendship, kinship] [alice, bob]) =
       person_id alice #
       filter (\<lambda>t. t \<in> person_id ` set [alice, bob])
         (map (targetPersonId alice) [friendship, kinship])"
    by blast
  then have a: "map node_id (nodes alice [friendship, kinship] [alice, bob]) = [''P1'', ''P2'']"
    by (simp add: t vals)
  from run have "map edge_id (edges alice [friendship, kinship]) =
       map rel_id [friendship, kinship]"
    by blast
  then have b: "map edge_id (edges alice [friendship, kinship]) = [''R1'', ''R4'']"
    by (simp add: vals)
  from run have "map edge_to (edges alice [friendship, kinship]) =
       map (targetPersonId alice) [friendship, kinship]"
    by blast
  then have c: "map edge_to (edges alice [friendship, kinship]) = [''P2'', ''P3'']"
    by (simp add: t)
  from run have "map item_relationship (getRelatedPeople alice [friendship, kinship] [alice, bob]) =
       filter (\<lambda>rel. targetPersonId alice rel \<in> person_id ` set [alice, bob])
         [friendship, kinship]"
    by blast
  then have d: "map item_relationship (getRelatedPeople alice [friendship, kinship] [alice, bob]) =
       [friendship]"
    by (simp add: t vals)
  from run have "map item_person (getRelatedPeople alice [friendship, kinship] [alice, bob]) =
       map (\<lambda>rel. find (\<lambda>q. person_id q = targetPersonId alice rel) [alice, bob])
         (filter (\<lambda>rel. targetPersonId alice rel \<in> person_id ` set [alice, bob])
            [friendship, kinship])"
    by blast
  then have e: "map item_person (getRelatedPeople alice [friendship, kinship] [alice, bob]) =
       [Some bob]"
    by (simp add: t vals)
  from a b c d e show ?thesis by (simp only: simp_thms)
qed

section \<open>Relationships that do not name the subject\<close>

lemma edgeOf_in_edges: "rel \<in> set rels \<Longrightarrow> edgeOf p rel \<in> set (edges p rels)"
  by (simp add: edges_def)

lemma found_in_map_filter:
  "rel \<in> set rels \<Longrightarrow> f rel = Some q \<Longrightarrow> q \<in> set (List.map_filter f rels)"
  by (induction rels) (auto split: option.splits)

lemma relatedNode_in_nodes:
  assumes "rel \<in> set rels" and "targetPerson roster (targetPersonId p rel) = Some q"
  shows "relatedNode q \<in> set (nodes p rels roster)"
proof -
  have "q \<in> set (List.map_filter (\<lambda>rel. targetPerson roster (targetPersonId p rel)) rels)"
    using assms by (rule found_in_map_filter)
  then show ?thesis
    by (simp add: nodes_closed_form)
qed

lemma item_in_related:
  assumes "rel \<in> set rels" and "targetPerson roster (targetPersonId p rel) = Some q"
  shows "\<lparr> item_relationship = rel, item_person = Some q \<rparr>
           \<in> set (getRelatedPeople p rels roster)"
proof -
  have "relatedItem p roster rel = \<lparr> item_relationship = rel, item_person = Some q \<rparr>"
    using assms(2) by (simp add: relatedItem_def)
  moreover have "relatedItem p roster rel \<in> set (map (relatedItem p roster) rels)"
    using assms(1) by simp
  ultimately show ?thesis
    by (simp add: getRelatedPeople_def)
qed

text \<open>
  Claim C9. For a relationship of the input list neither of whose endpoints is the
  subject, the counterpart resolves to \<open>person1Id\<close>. The relationship is then not
  excluded: the edge list holds its edge from the subject to \<open>person1Id\<close>, and when
  \<open>person1Id\<close> is the identifier of a roster entry, there is a roster person with
  that identifier such that the node list holds the "related" node with identifier
  \<open>person1Id\<close> and that person's name and first alternate name, and the
  related-people list holds the relationship paired with that person.
\<close>

theorem foreign_relationship_uses_person1:
  assumes "rel \<in> set rels"
    and "person1Id rel \<noteq> person_id p"
    and "person2Id rel \<noteq> person_id p"
  shows "targetPersonId p rel = person1Id rel
       \<and> \<lparr> edge_id = rel_id rel, edge_from = person_id p, edge_to = person1Id rel,
            edge_label = description rel, edge_color = ''#667eea'', edge_arrows = ''to'' \<rparr>
           \<in> set (edges p rels)
       \<and> (person1Id rel \<in> person_id ` set roster \<longrightarrow>
            (\<exists>q \<in> set roster.
               person_id q = person1Id rel
             \<and> \<lparr> node_id = person1Id rel, node_label = person_name q,
                  node_title = (case person_alias q of
                                  None \<Rightarrow> '''' | Some [] \<Rightarrow> '''' | Some (a # _) \<Rightarrow> a),
                  node_color = ''#4ecdc4'', node_group = ''related'' \<rparr>
                 \<in> set (nodes p rels roster)
             \<and> \<lparr> item_relationship = rel, item_person = Some q \<rparr>
                 \<in> set (getRelatedPeople p rels roster)))"
proof -
  have t: "targetPersonId p rel = person1Id rel"
    using assms(2) by (simp add: targetPersonId_def)
  have "edgeOf p rel \<in> set (edges p rels)"
    using assms(1) by (rule edgeOf_in_edges)
  then have e: "\<lparr> edge_id = rel_id rel, edge_from = person_id p, edge_to = person1Id rel,
            edge_label = description rel, edge_color = ''#667eea'', edge_arrows = ''to'' \<rparr>
           \<in> set (edges p rels)"
    by (simp add: edgeOf_def t)
  have n: "\<exists>q \<in> set roster.
               person_id q = person1Id rel
             \<and> \<lparr> node_id = person1Id rel, node_label = person_name q,
                  node_title = (case person_alias q of
                                  None \<Rightarrow> '''' | Some [] \<Rightarrow> '''' | Some (a # _) \<Rightarrow> a),
                  node_color = ''#4ecdc4'', node_group = ''related'' \<rparr>
                 \<in> set (nodes p rels roster)
             \<and> \<lparr> item_relationship = rel, item_person = Some q \<rparr>
                 \<in> set (getRelatedPeople p rels roster)"
    if "person1Id rel \<in> person_id ` set roster"
  proof -
    from that obtain q where q: "q \<in> set roster"
      and found: "targetPerson roster (person1Id rel) = Some q"
      and qid: "person_id q = person1Id rel"
      using targetPerson_present by blast
    from found have found': "targetPerson roster (targetPersonId p rel) = Some q"
      by (simp only: t)
    have "relatedNode q \<in> set (nodes p rels roster)"
      using assms(1) found' by (rule relatedNode_in_nodes)
    then have node: "\<lparr> node_id = person1Id rel, node_label = person_name q,
                  node_title = (case person_alias q of
                                  None \<Rightarrow> '''' | Some [] \<Rightarrow> '''' | Some (a # _) \<Rightarrow> a),
                  node_color = ''#4ecdc4'', node_group = ''related'' \<rparr>
                 \<in> set (nodes p rels roster)"
      by (simp only: relatedNode_def aliasTitle_def qid)
    have "\<lparr> item_relationship = rel, item_person = Some q \<rparr>
                 \<in> set (getRelatedPeople p rels roster)"
      using assms(1) found' by (rule item_in_related)
    with q qid node show ?thesis by blast
  qed
  from t e n show ?thesis by blast
qed

theorem foreign_relationship_uses_person1_witness:
  "rivalry \<in> set [rivalry]
   \<and> person1Id rivalry \<noteq> person_id alice
   \<and> person2Id rivalry \<noteq> person_id alice
   \<and> person1Id rivalry \<in> person_id ` set [alice, bob, carol]
   \<and> targetPersonId alice rivalry = ''P2''
   \<and> \<lparr> edge_id = ''R3'', edge_from = ''P1'', edge_to = ''P2'', edge_label = ''rival'',
        edge_color = ''#667eea'', edge_arrows = ''to'' \<rparr>
       \<in> set (edges alice [rivalry])
   \<and> \<lparr> node_id = ''P2'', node_label = ''Bob'', node_title = ''Robert'',
        node_color = ''#4ecdc4'', node_group = ''related'' \<rparr>
       \<in> set (nodes alice [rivalry] [alice, bob, carol])
   \<and> \<lparr> item_relationship = rivalry, item_person = Some bob \<rparr>
       \<in> set (getRelatedPeople alice [rivalry] [alice, bob, carol])"
proof -
  have h1: "rivalry \<in> set [rivalry]"
    by simp
  have h2: "person1Id rivalry \<noteq> person_id alice"
    by (simp add: rivalry_def alice_def)
  have h3: "person2Id rivalry \<noteq> person_id alice"
    by (simp add: rivalry_def alice_def)
  have h4: "person1Id rivalry \<in> person_id ` set [alice, bob, carol]"
    by (simp add: rivalry_def bob_def)
  have vals: "person1Id rivalry = ''P2''" "rel_id rivalry = ''R3''"
    "description rivalry = ''rival''" "person_id alice = ''P1''"
    by (simp_all add: rivalry_def alice_def)
  note run = foreign_relationship_uses_person1 [OF h1 h2 h3, of "[alice, bob, carol]"]
  from run have t: "targetPersonId alice rivalry = ''P2''"
    by (simp add: vals)
  from run have e: "\<lparr> edge_id = ''R3'', edge_from = ''P1'', edge_to = ''P2'',
        edge_label = ''rival'', edge_color = ''#667eea'', edge_arrows = ''to'' \<rparr>
       \<in> set (edges alice [rivalry])"
    by (simp only: vals)
  from run h4 obtain q where q: "q \<in> set [alice, bob, carol]"
    and qid: "person_id q = person1Id rivalry"
    and node: "\<lparr> node_id = person1Id rivalry, node_label = person_name q,
                  node_title = (case person_alias q of
                                  None \<Rightarrow> '''' | Some [] \<Rightarrow> '''' | Some (a # _) \<Rightarrow> a),
                  node_color = ''#4ecdc4'', node_group = ''related'' \<rparr>
                 \<in> set (nodes alice [rivalry] [alice, bob, carol])"
    and item: "\<lparr> item_relationship = rivalry, item_person = Some q \<rparr>
                 \<in> set (getRelatedPeople alice [rivalry] [alice, bob, carol])"
    by blast
  from q qid have "q = bob"
    by (auto simp: vals alice_def bob_def carol_def)
  with node item have n: "\<lparr> node_id = ''P2'', node_label = ''Bob'', node_title = ''Robert'',
        node_color = ''#4ecdc4'', node_group = ''related'' \<rparr>
       \<in> set (nodes alice [rivalry] [alice, bob, carol])"
    and i: "\<lparr> item_relationship = rivalry, item_person = Some bob \<rparr>
       \<in> set (getRelatedPeople alice [rivalry] [alice, bob, carol])"
    by (simp_all add: vals bob_def)
  from h1 h2 h3 h4 t e n i show ?thesis
    by (simp only: simp_thms)
qed

section \<open>Idempotence\<close>

lemma networkRef_update: "networkRef (st\<lparr>networkInstance := x\<rparr>) = networkRef st"
  by (simp add: networkRef_def render_def split: option.splits)

lemma render_update: "render (st\<lparr>networkInstance := x\<rparr>) = render st"
  by (simp add: render_def split: option.splits)

lemma networkRef_person: "networkRef st \<Longrightarrow> \<exists>p. person st = Some p"
  by (simp add: networkRef_def render_def split: if_splits option.splits)

lemma createNetwork_guard: "\<not> networkRef st \<Longrightarrow> createNetwork st = Inr st"
  by (simp add: createNetwork_def split: option.splits)

lemma createNetwork_update:
  assumes "networkRef st"
  shows "createNetwork (st\<lparr>networkInstance := x\<rparr>) = createNetwork st"
proof -
  from assms obtain p where "person st = Some p"
    using networkRef_person by blast
  with assms show ?thesis
    by (simp add: createNetwork_def networkRef_update split: sum.splits)
qed

lemma createNetwork_stores:
  assumes "networkRef st" and "createNetwork st = Inr st'"
  shows "\<exists>q. person st = Some q
           \<and> distinct (map node_id (nodes q (relationships st) (allPeople st)))
           \<and> distinct (map edge_id (edges q (relationships st)))
           \<and> st' = st\<lparr>networkInstance :=
                      Some \<lparr> net_nodes = nodes q (relationships st) (allPeople st),
                             net_edges = edges q (relationships st) \<rparr>\<rparr>"
proof -
  from assms(1) obtain q where q: "person st = Some q"
    using networkRef_person by blast
  from assms q obtain ns es
    where ns: "newDataSet node_id (nodes q (relationships st) (allPeople st)) = Inr ns"
      and es: "newDataSet edge_id (edges q (relationships st)) = Inr es"
      and st': "st' = st\<lparr>networkInstance := Some \<lparr> net_nodes = ns, net_edges = es \<rparr>\<rparr>"
    by (auto simp: createNetwork_def split: sum.splits)
  from ns es st' q show ?thesis
    by (simp add: newDataSet_Inr)
qed

lemma afterEffect_shape: "\<exists>x. afterEffect st = st\<lparr>networkInstance := x\<rparr>"
proof (cases "networkRef st")
  case False
  then have "afterEffect st = st\<lparr>networkInstance := networkInstance st\<rparr>"
    by (simp add: afterEffect_def createNetwork_guard)
  then show ?thesis ..
next
  case True
  show ?thesis
  proof (cases "createNetwork st")
    case (Inl e)
    then have "afterEffect st = st\<lparr>networkInstance := networkInstance st\<rparr>"
      by (simp add: afterEffect_def)
    then show ?thesis ..
  next
    case (Inr st')
    with True createNetwork_stores [OF True Inr] show ?thesis
      by (auto simp: afterEffect_def)
  qed
qed

lemma createNetwork_afterEffect: "createNetwork (afterEffect st) = createNetwork st"
proof (cases "networkRef st")
  case False
  then show ?thesis
    by (simp add: afterEffect_def createNetwork_guard)
next
  case True
  obtain x where "afterEffect st = st\<lparr>networkInstance := x\<rparr>"
    using afterEffect_shape by blast
  with True show ?thesis
    by (simp add: createNetwork_update)
qed

lemma createNetwork_after_cleanup:
  assumes "networkRef st"
  shows "createNetwork (destroyNetwork (afterEffect st)) = createNetwork st"
proof -
  obtain x where "afterEffect st = st\<lparr>networkInstance := x\<rparr>"
    using afterEffect_shape by blast
  then have "destroyNetwork (afterEffect st) = st\<lparr>networkInstance := None\<rparr>"
    by (simp add: destroyNetwork_def)
  with assms show ?thesis
    by (simp add: createNetwork_update)
qed

lemma afterEffect_fields:
  "person (afterEffect st) = person st
   \<and> relationships (afterEffect st) = relationships st
   \<and> allPeople (afterEffect st) = allPeople st"
proof -
  obtain x where "afterEffect st = st\<lparr>networkInstance := x\<rparr>"
    using afterEffect_shape by blast
  then show ?thesis by simp
qed

lemma render_afterEffect: "render (afterEffect st) = render st"
proof -
  obtain x where "afterEffect st = st\<lparr>networkInstance := x\<rparr>"
    using afterEffect_shape by blast
  then show ?thesis by (simp add: render_update)
qed

text \<open>
  Claim C8. The projection reads the subject, the relationships and the roster from the
  page state and writes only the network it builds. A run of the effect leaves that
  triple as it was, so the node list, the edge list and the related-people list computed
  from the state afterwards are the ones computed before. Running the effect a second
  time on the state the first run left has the same outcome as the first run: the same
  stored network, or the same exception of the data set; this also holds after the
  cleanup that discards the first network, when there is a container. A run that
  completes leaves the view, with its related-people list, unchanged, and a run that
  completes with a container has stored exactly the node and edge lists of the triple,
  free of repeated identifiers.
\<close>

theorem projection_idempotent:
  "createNetwork (afterEffect st) = createNetwork st
   \<and> (networkRef st \<longrightarrow> createNetwork (destroyNetwork (afterEffect st)) = createNetwork st)
   \<and> nodes p (relationships (afterEffect st)) (allPeople (afterEffect st)) =
       nodes p (relationships st) (allPeople st)
   \<and> edges p (relationships (afterEffect st)) = edges p (relationships st)
   \<and> getRelatedPeople p (relationships (afterEffect st)) (allPeople (afterEffect st)) =
       getRelatedPeople p (relationships st) (allPeople st)
   \<and> (\<forall>st'. createNetwork st = Inr st' \<longrightarrow> render st' = render st)
   \<and> (\<forall>st'. networkRef st \<and> createNetwork st = Inr st' \<longrightarrow>
        (\<exists>q. person st = Some q
           \<and> distinct (map node_id (nodes q (relationships st) (allPeople st)))
           \<and> distinct (map edge_id (edges q (relationships st)))
           \<and> networkInstance st' =
               Some \<lparr> net_nodes = nodes q (relationships st) (allPeople st),
                      net_edges = edges q (relationships st) \<rparr>))"
proof -
  have view: "render st' = render st" if "createNetwork st = Inr st'" for st'
  proof -
    from that have "afterEffect st = st'"
      by (simp add: afterEffect_def)
    then show ?thesis
      using render_afterEffect [of st] by simp
  qed
  have stored: "\<exists>q. person st = Some q
           \<and> distinct (map node_id (nodes q (relationships st) (allPeople st)))
           \<and> distinct (map edge_id (edges q (relationships st)))
           \<and> networkInstance st' =
               Some \<lparr> net_nodes = nodes q (relationships st) (allPeople st),
                      net_edges = edges q (relationships st) \<rparr>"
    if "networkRef st \<and> createNetwork st = Inr st'" for st'
  proof -
    from that obtain q where "person st = Some q"
      and "distinct (map node_id (nodes q (relationships st) (allPeople st)))"
      and "distinct (map edge_id (edges q (relationships st)))"
      and "st' = st\<lparr>networkInstance :=
                      Some \<lparr> net_nodes = nodes q (relationships st) (allPeople st),
                             net_edges = edges q (relationships st) \<rparr>\<rparr>"
      using createNetwork_stores [of st st'] by blast
    then show ?thesis by simp
  qed
  from view stored show ?thesis
    by (simp add: createNetwork_afterEffect createNetwork_after_cleanup afterEffect_fields)
qed

theorem projection_idempotent_witness:
  "networkRef readyState
   \<and> createNetwork readyState =
       Inr (readyState\<lparr>networkInstance :=
              Some \<lparr> net_nodes = nodes alice [friendship, kinship] [alice, bob, carol],
                     net_edges = edges alice [friendship, kinship] \<rparr>\<rparr>)
   \<and> createNetwork (afterEffect readyState) = createNetwork readyState
   \<and> createNetwork (destroyNetwork (afterEffect readyState)) = createNetwork readyState
   \<and> render (readyState\<lparr>networkInstance :=
              Some \<lparr> net_nodes = nodes alice [friendship, kinship] [alice, bob, carol],
                     net_edges = edges alice [friendship, kinship] \<rparr>\<rparr>) = render readyState"
proof -
  have h: "networkRef readyState"
    by (simp add: networkRef_def render_def readyState_def)
  have nd: "newDataSet node_id (nodes alice [friendship, kinship] [alice, bob, carol]) =
            Inr (nodes alice [friendship, kinship] [alice, bob, carol])"
    unfolding newDataSet_Inr
    by (simp add: node_ids targetPerson_def targetPersonId_def alice_def bob_def carol_def
        friendship_def kinship_def)
  have ed: "newDataSet edge_id (edges alice [friendship, kinship]) =
            Inr (edges alice [friendship, kinship])"
    unfolding newDataSet_Inr
    by (simp add: edge_ids friendship_def kinship_def)
  have fields: "person readyState = Some alice"
    "relationships readyState = [friendship, kinship]"
    "allPeople readyState = [alice, bob, carol]"
    by (simp_all add: readyState_def)
  have run: "createNetwork readyState =
       Inr (readyState\<lparr>networkInstance :=
              Some \<lparr> net_nodes = nodes alice [friendship, kinship] [alice, bob, carol],
                     net_edges = edges alice [friendship, kinship] \<rparr>\<rparr>)"
    using h by (simp add: createNetwork_def fields nd ed)
  note idem = projection_idempotent [of readyState]
  from idem have twice: "createNetwork (afterEffect readyState) = createNetwork readyState"
    by (rule conjunct1)
  from idem h have cleanup:
    "createNetwork (destroyNetwork (afterEffect readyState)) = createNetwork readyState"
    by blast
  from idem run have view:
    "render (readyState\<lparr>networkInstance :=
              Some \<lparr> net_nodes = nodes alice [friendship, kinship] [alice, bob, carol],
                     net_edges = edges alice [friendship, kinship] \<rparr>\<rparr>) = render readyState"
    by blast
  from h run twice cleanup view show ?thesis
    by (simp only: simp_thms)
qed

section \<open>Subject not found\<close>

text \<open>
  Claim C5. When the three requests resolve and the subject is null, for any non-empty
  route identifier and any previous state: the loader stores the not-found message (not
  the load-failed one) and lowers the loading flag; the subject, relationship and roster
  fields keep their previous values, whatever the other two requests returned; the
  component shows the error view with the not-found message, hence neither the graph
  container nor the related-people list; and the graph effect returns at once, changing
  nothing.
\<close>

theorem loadData_subject_not_found:
  assumes "ident \<noteq> ''''"
  shows "loadData (Some ident) (Resolved None) (Resolved rd) (Resolved ad) st =
           st\<lparr>loading := False, error := Some NotFoundMessage\<rparr>
       \<and> person (loadData (Some ident) (Resolved None) (Resolved rd) (Resolved ad) st) =
           person st
       \<and> relationships (loadData (Some ident) (Resolved None) (Resolved rd) (Resolved ad) st) =
           relationships st
       \<and> allPeople (loadData (Some ident) (Resolved None) (Resolved rd) (Resolved ad) st) =
           allPeople st
       \<and> networkInstance (loadData (Some ident) (Resolved None) (Resolved rd) (Resolved ad) st) =
           networkInstance st
       \<and> render (loadData (Some ident) (Resolved None) (Resolved rd) (Resolved ad) st) =
           ErrorView NotFoundMessage
       \<and> createNetwork (loadData (Some ident) (Resolved None) (Resolved rd) (Resolved ad) st) =
           Inr (loadData (Some ident) (Resolved None) (Resolved rd) (Resolved ad) st)"
proof -
  have eq: "loadData (Some ident) (Resolved None) (Resolved rd) (Resolved ad) st =
           st\<lparr>loading := False, error := Some NotFoundMessage\<rparr>"
    using assms by (simp add: loadData_def)
  have view: "render (st\<lparr>loading := False, error := Some NotFoundMessage\<rparr>) =
           ErrorView NotFoundMessage"
    by (simp add: render_def split: option.splits)
  have "\<not> networkRef (st\<lparr>loading := False, error := Some NotFoundMessage\<rparr>)"
    unfolding networkRef_def view by simp
  then have "createNetwork (st\<lparr>loading := False, error := Some NotFoundMessage\<rparr>) =
          Inr (st\<lparr>loading := False, error := Some NotFoundMessage\<rparr>)"
    by (rule createNetwork_guard)
  with view show ?thesis
    by (simp add: eq)
qed

theorem loadData_subject_not_found_witness:
  "''P9'' \<noteq> ''''
   \<and> loadData (Some ''P9'') (Resolved None) (Resolved [friendship]) (Resolved [alice, bob])
       initialState =
       \<lparr> person = None, relationships = [], allPeople = [], loading = False,
         error = Some NotFoundMessage, networkInstance = None \<rparr>
   \<and> render (loadData (Some ''P9'') (Resolved None) (Resolved [friendship])
       (Resolved [alice, bob]) initialState) = ErrorView NotFoundMessage"
proof -
  have h: "''P9'' \<noteq> ''''"
    by simp
  note run = loadData_subject_not_found [OF h, of "[friendship]" "[alice, bob]" initialState]
  from run have eq:
    "loadData (Some ''P9'') (Resolved None) (Resolved [friendship]) (Resolved [alice, bob])
       initialState = initialState\<lparr>loading := False, error := Some NotFoundMessage\<rparr>"
    by (rule conjunct1)
  from run have view:
    "render (loadData (Some ''P9'') (Resolved None) (Resolved [friendship])
       (Resolved [alice, bob]) initialState) = ErrorView NotFoundMessage"
    by blast
  have "initialState\<lparr>loading := False, error := Some NotFoundMessage\<rparr> =
       \<lparr> person = None, relationships = [], allPeople = [], loading = False,
         error = Some NotFoundMessage, networkInstance = None \<rparr>"
    by (simp add: initialState_def)
  with h eq view show ?thesis
    by (simp only: simp_thms)
qed

section \<open>Navigation\<close>

lemma related_item_person:
  assumes "item \<in> set (getRelatedPeople p rels roster)"
  shows "\<exists>q. item_person item = Some q
            \<and> person_id q = targetPersonId p (item_relationship item)"
proof -
  from assms obtain rel where item: "item = relatedItem p roster rel"
    and found: "item_person item \<noteq> None"
    by (auto simp: getRelatedPeople_def)
  from found obtain q where q: "targetPerson roster (targetPersonId p rel) = Some q"
    by (auto simp: item relatedItem_def)
  then have "person_id q = targetPersonId p rel"
    by (simp add: targetPerson_Some)
  with q show ?thesis
    by (simp add: item relatedItem_def)
qed

text \<open>
  Claim C6. A click whose first node identifier differs from the subject's requests
  navigation to that node's route, and nothing else; a click on the subject's own node
  requests nothing; a click on any entry of the related-people list succeeds and
  requests exactly one navigation, to the route of the entry's counterpart identifier.
\<close>

theorem click_navigation:
  "(nodeId \<noteq> person_id p \<longrightarrow> onClick p (nodeId # others) = [''/person/'' @ nodeId])
   \<and> onClick p (person_id p # others) = []
   \<and> (\<forall>item \<in> set (getRelatedPeople p rels roster).
        itemClick item = Some [''/person/'' @ targetPersonId p (item_relationship item)])"
proof -
  have "itemClick item = Some [''/person/'' @ targetPersonId p (item_relationship item)]"
    if "item \<in> set (getRelatedPeople p rels roster)" for item
    using related_item_person [OF that]
    by (auto simp: itemClick_def handlePersonClick_def)
  then show ?thesis
    by (simp add: onClick_def)
qed

theorem click_navigation_witness:
  "''P2'' \<noteq> person_id alice
   \<and> \<lparr> item_relationship = friendship, item_person = Some bob \<rparr>
       \<in> set (getRelatedPeople alice [friendship] [alice, bob])
   \<and> onClick alice [''P2''] = [''/person/P2'']
   \<and> onClick alice [''P1''] = []
   \<and> itemClick \<lparr> item_relationship = friendship, item_person = Some bob \<rparr> =
       Some [''/person/P2'']"
proof -
  have h1: "''P2'' \<noteq> person_id alice"
    by (simp add: alice_def)
  have h2: "\<lparr> item_relationship = friendship, item_person = Some bob \<rparr>
       \<in> set (getRelatedPeople alice [friendship] [alice, bob])"
    by (simp add: getRelatedPeople_def relatedItem_def targetPerson_def targetPersonId_def
        alice_def bob_def friendship_def)
  have t: "targetPersonId alice friendship = ''P2''" "person_id alice = ''P1''"
    by (simp_all add: targetPersonId_def alice_def friendship_def)
  show ?thesis
    using h1 h2 click_navigation [of "''P2''" alice "[]" "[friendship]" "[alice, bob]"]
    by (auto simp: t)
qed

end
